theory Spec2Isabelle
  imports Main
begin

section \<open>Contract analyzer: the document analysis pipeline of backend/server.py\<close>

text \<open>
  The development follows \<^verbatim>\<open>backend/server.py\<close>: the chunking of the extracted
  text and the per-chunk loop of \<^verbatim>\<open>analyze_contract_with_llm\<close>, the text
  extraction of \<^verbatim>\<open>extract_text_from_pdf\<close> and the endpoint
  \<^verbatim>\<open>upload_contract\<close>. Exceptions are values of a sum type, the document
  store is passed explicitly, and the libraries the module calls (the PDF reader, the chat
  client, the JSON decoder) are fields of an environment record. Calls to the logger have
  no effect on any result and are left out.
\<close>

subsection \<open>Python strings\<close>

text \<open>
  A Python \<^verbatim>\<open>str\<close> is modelled as a \<^typ>\<open>string\<close>; characters are
  taken from the 8-bit range. \<open>isspace\<close> is \<^verbatim>\<open>str.isspace\<close> on one character
  of that range: the code points 9 to 13, 28 to 32, 133 and 160.
\<close>

definition isspace :: "char \<Rightarrow> bool" where
  "isspace c = (of_char c \<in> {9, 10, 11, 12, 13, 28, 29, 30, 31, 32, 133, 160 :: nat})"

text \<open>\<^verbatim>\<open>s.strip()\<close>: leading and trailing whitespace removed.\<close>

definition strip :: "string \<Rightarrow> string" where
  "strip s = rev (dropWhile isspace (rev (dropWhile isspace s)))"

text \<open>
  \<^verbatim>\<open>s.split()\<close> with no argument: the maximal runs of non-whitespace
  characters, in order. \<open>split_from cur s\<close> scans \<open>s\<close> with the word read so far in
  \<open>cur\<close>.
\<close>

fun split_from :: "string \<Rightarrow> string \<Rightarrow> string list" where
  "split_from cur [] = (if cur = [] then [] else [cur])"
| "split_from cur (c # cs) =
     (if isspace c then (if cur = [] then split_from [] cs else cur # split_from [] cs)
      else split_from (cur @ [c]) cs)"

definition split :: "string \<Rightarrow> string list" where
  "split s = split_from [] s"

text \<open>\<^verbatim>\<open>" ".join(ws)\<close>.\<close>

fun join :: "string list \<Rightarrow> string" where
  "join [] = []"
| "join [w] = w"
| "join (w # v # ws) = w @ CHR '' '' # join (v # ws)"

subsection \<open>The chunker (server.py, lines 113 to 134)\<close>

definition max_chunk_size :: nat where
  "max_chunk_size = 15000"

text \<open>
  One iteration of \<^verbatim>\<open>for word in words\<close>. The loop state is
  \<open>(chunks, current_chunk, current_length)\<close>.
\<close>

definition chunk_step ::
  "nat \<Rightarrow> string list \<times> string list \<times> nat \<Rightarrow> string \<Rightarrow> string list \<times> string list \<times> nat" where
  "chunk_step budget st word =
     (case st of (chunks, current_chunk, current_length) \<Rightarrow>
        if current_length + length word > budget \<and> current_chunk \<noteq> []
        then (chunks @ [join current_chunk], [word], length word)
        else (chunks, current_chunk @ [word], current_length + length word + 1))"

definition chunk_loop :: "nat \<Rightarrow> string list \<Rightarrow> string list \<times> string list \<times> nat" where
  "chunk_loop budget words = foldl (chunk_step budget) ([], [], 0) words"

text \<open>
  The whole \<^verbatim>\<open>if len(contract_text) > max_chunk_size: ... else: ...\<close> block,
  with the budget as a parameter; the program runs it at \<^const>\<open>max_chunk_size\<close>.
\<close>

definition chunk_text :: "nat \<Rightarrow> string \<Rightarrow> string list" where
  "chunk_text budget contract_text =
     (if length contract_text > budget
      then (case chunk_loop budget (split contract_text) of
              (chunks, current_chunk, current_length) \<Rightarrow>
                if current_chunk \<noteq> [] then chunks @ [join current_chunk] else chunks)
      else [contract_text])"

subsection \<open>More string operations\<close>

text \<open>
  \<^verbatim>\<open>s.lower()\<close> on the 8-bit range: the letters A to Z and the upper-case
  letters of Latin-1 (192 to 222, except the multiplication sign 215) move up by 32.
\<close>

definition lower_char :: "char \<Rightarrow> char" where
  "lower_char c =
     (let n = of_char c :: nat in
      if (65 \<le> n \<and> n \<le> 90) \<or> (192 \<le> n \<and> n \<le> 222 \<and> n \<noteq> 215)
      then char_of (n + 32) else c)"

definition lower :: "string \<Rightarrow> string" where
  "lower s = map lower_char s"

text \<open>\<^verbatim>\<open>s.endswith(suffix)\<close>.\<close>

definition endswith :: "string \<Rightarrow> string \<Rightarrow> bool" where
  "endswith s suffix =
     (length suffix \<le> length s \<and> drop (length s - length suffix) s = suffix)"

text \<open>\<^verbatim>\<open>str(n)\<close> for a natural number: its decimal digits.\<close>

definition digit_char :: "nat \<Rightarrow> char" where
  "digit_char d = char_of (48 + d)"

function str_nat :: "nat \<Rightarrow> string" where
  "str_nat n = (if n < 10 then [digit_char n] else str_nat (n div 10) @ [digit_char (n mod 10)])"
  by pat_completeness auto
termination
  by (relation "measure id") auto

text \<open>
  \<^verbatim>\<open>re.search(r'\[.*\]', s, re.DOTALL)\<close>, giving \<^verbatim>\<open>group()\<close> of the
  match. The search takes the leftmost position at which the pattern matches, which is the
  first opening bracket provided a closing bracket follows it (if none follows the first one,
  none follows a later one); \<^verbatim>\<open>.*\<close> is greedy and, with
  \<^verbatim>\<open>DOTALL\<close>, crosses line ends, so the match runs to the last closing
  bracket of the string.
\<close>

definition re_search_array :: "string \<Rightarrow> string option" where
  "re_search_array s =
     (case dropWhile (\<lambda>c. c \<noteq> CHR ''['') s of
        [] \<Rightarrow> None
      | b # rest \<Rightarrow>
          if CHR '']'' \<in> set rest
          then Some (b # rev (dropWhile (\<lambda>c. c \<noteq> CHR '']'') (rev rest)))
          else None)"

subsection \<open>Values, exceptions and the environment\<close>

text \<open>
  What \<^verbatim>\<open>json.loads\<close> returns: \<^verbatim>\<open>None\<close>, a \<^verbatim>\<open>bool\<close>,
  an \<^verbatim>\<open>int\<close>, a \<^verbatim>\<open>float\<close> (kept as its literal), a
  \<^verbatim>\<open>str\<close>, a \<^verbatim>\<open>list\<close> or a \<^verbatim>\<open>dict\<close> (its items in
  insertion order).
\<close>

datatype json =
    JNull
  | JBool bool
  | JInt int
  | JFloat string
  | JString string
  | JArray "json list"
  | JObject "(string \<times> json) list"


fun is_dict :: "json \<Rightarrow> bool" where
  "is_dict (JObject kvs) = True"
| "is_dict _ = False"

text \<open>
  The exceptions that matter to the control flow: FastAPI's \<^verbatim>\<open>HTTPException\<close>
  with its status code and detail, \<^verbatim>\<open>json.JSONDecodeError\<close> with its message,
  and any other exception with its message.
\<close>

datatype exn =
    HTTPException nat string
  | JSONDecodeError string
  | OtherException string

text \<open>
  \<^verbatim>\<open>str(e)\<close>. For an \<^verbatim>\<open>HTTPException\<close> the framework prints the
  status code, a colon and the detail.
\<close>

fun str_exn :: "exn \<Rightarrow> string" where
  "str_exn (HTTPException status detail) = str_nat status @ '': '' @ detail"
| "str_exn (JSONDecodeError msg) = msg"
| "str_exn (OtherException msg) = msg"

text \<open>
  The document stored in the collection \<^verbatim>\<open>contract_analyses\<close> and returned as
  \<^verbatim>\<open>ContractAnalysisResult\<close>. The field \<^verbatim>\<open>id\<close> is called
  \<open>id_str\<close> here.
\<close>

record analysis =
  id_str :: string
  filename :: string
  analysis_results :: "json list"
  processed_at :: string

text \<open>
  The surroundings of one request:
  \<^item> \<open>llm_key\<close>: the environment variable \<^verbatim>\<open>EMERGENT_LLM_KEY\<close>;
  \<^item> \<open>pdf_pages\<close>: \<^verbatim>\<open>pdfplumber\<close> on the uploaded bytes, giving
    \<^verbatim>\<open>page.extract_text()\<close> for every page (\<open>None\<close> for a page without
    text), or the message of the exception the library raises;
  \<^item> \<open>send_message\<close>: the reply of the chat session to the prompt of the call with the
    given index (the session keeps its history, so the reply may depend on the position of
    the call), or the message of the exception of a failed round trip;
  \<^item> \<open>json_loads\<close>: \<^verbatim>\<open>json.loads\<close>, a value or the exception raised;
  \<^item> \<open>uuid4\<close> and \<open>now\<close>: the identifier and the ISO timestamp drawn for the record;
  \<^item> \<open>insert_failure\<close>: the message of the exception of
    \<^verbatim>\<open>insert_one\<close>, if the driver raises one.
\<close>

record env =
  llm_key :: "string option"
  pdf_pages :: "string \<Rightarrow> string + string option list"
  send_message :: "nat \<Rightarrow> string \<Rightarrow> string + string"
  json_loads :: "string \<Rightarrow> exn + json"
  uuid4 :: string
  now :: string
  insert_failure :: "string option"

subsection \<open>The chat client (\<^verbatim>\<open>get_llm_chat\<close>) and the prompt\<close>

definition get_llm_chat :: "env \<Rightarrow> exn + unit" where
  "get_llm_chat E =
     (case llm_key E of
        None \<Rightarrow> Inl (HTTPException 500 ''LLM API key not configured'')
      | Some api_key \<Rightarrow>
          if api_key = [] then Inl (HTTPException 500 ''LLM API key not configured'')
          else Inr ())"

definition newline :: string where
  "newline = [char_of (10::nat)]"

definition dquote :: string where
  "dquote = [char_of (34::nat)]"

definition apostrophe :: string where
  "apostrophe = [char_of (39::nat)]"

text \<open>
  The f-string of lines 139 to 150; \<open>number\<close> is \<^verbatim>\<open>i+1\<close> and \<open>num_chunks\<close> is
  \<^verbatim>\<open>len(chunks)\<close>.
\<close>

definition prompt :: "string \<Rightarrow> nat \<Rightarrow> nat \<Rightarrow> string" where
  "prompt chunk number num_chunks =
     ''Analyze the following contract text for risky or unfavorable clauses:''
     @ newline @ newline @ chunk @ newline @ newline
     @ ''Return your analysis as a valid JSON array. Each risky clause should be an object with exactly these fields:''
     @ newline @ ''- clause_text: The exact problematic text''
     @ newline @ ''- issue_detected: Brief issue title''
     @ newline @ ''- explanation: Why it'' @ apostrophe @ ''s risky in plain language''
     @ newline @ ''- suggested_alternative: Better alternative clause''
     @ newline @ ''- risk_level: '' @ dquote @ ''High'' @ dquote @ '', '' @ dquote @ ''Medium''
     @ dquote @ '', or '' @ dquote @ ''Low'' @ dquote
     @ newline @ newline
     @ ''If this is chunk '' @ str_nat number @ '' of '' @ str_nat num_chunks
     @ '', focus on complete clauses only.''"

subsection \<open>Reading one reply (server.py, lines 155 to 174)\<close>

text \<open>
  The findings that one reply adds to \<^verbatim>\<open>all_analyses\<close>, or the exception that
  leaves the loop. The first \<^verbatim>\<open>try\<close> catches
  \<^verbatim>\<open>json.JSONDecodeError\<close> only; the handler searches the untrimmed reply
  for a bracketed part, decodes it, and its bare \<^verbatim>\<open>except\<close> swallows every
  exception.
\<close>

definition parse_response :: "(string \<Rightarrow> exn + json) \<Rightarrow> string \<Rightarrow> exn + json list" where
  "parse_response loads response =
     (case loads (strip response) of
        Inr chunk_analysis \<Rightarrow>
          (case chunk_analysis of JArray items \<Rightarrow> Inr items | _ \<Rightarrow> Inr [])
      | Inl (JSONDecodeError msg) \<Rightarrow>
          (case re_search_array response of
             None \<Rightarrow> Inr []
           | Some json_match \<Rightarrow>
               (case loads json_match of
                  Inr (JArray items) \<Rightarrow> Inr items
                | Inr _ \<Rightarrow> Inr []
                | Inl _ \<Rightarrow> Inr []))
      | Inl e \<Rightarrow> Inl e)"

subsection \<open>The per-chunk loop and \<^verbatim>\<open>analyze_contract_with_llm\<close>\<close>

text \<open>
  \<^verbatim>\<open>for i, chunk in enumerate(chunks)\<close>, from index \<open>i\<close> on, with
  \<^verbatim>\<open>all_analyses\<close> so far. An exception of the round trip or of the first
  decoding leaves the loop.
\<close>

fun analyze_chunks :: "env \<Rightarrow> nat \<Rightarrow> nat \<Rightarrow> string list \<Rightarrow> json list \<Rightarrow> exn + json list" where
  "analyze_chunks E num_chunks i [] all_analyses = Inr all_analyses"
| "analyze_chunks E num_chunks i (chunk # rest) all_analyses =
     (case send_message E i (prompt chunk (i + 1) num_chunks) of
        Inl msg \<Rightarrow> Inl (OtherException msg)
      | Inr response \<Rightarrow>
          (case parse_response (json_loads E) response of
             Inl e \<Rightarrow> Inl e
           | Inr found \<Rightarrow> analyze_chunks E num_chunks (i + 1) rest (all_analyses @ found)))"

text \<open>
  The outer \<^verbatim>\<open>try\<close> turns every exception, the one of
  \<^verbatim>\<open>get_llm_chat\<close> included, into an \<^verbatim>\<open>HTTPException\<close> with
  status 500.
\<close>

definition analyze_contract_with_llm :: "env \<Rightarrow> string \<Rightarrow> exn + json list" where
  "analyze_contract_with_llm E contract_text =
     (case get_llm_chat E of
        Inl e \<Rightarrow> Inl (HTTPException 500 (''Analysis failed: '' @ str_exn e))
      | Inr chat \<Rightarrow>
          (let chunks = chunk_text max_chunk_size contract_text in
           case analyze_chunks E (length chunks) 0 chunks [] of
             Inl e \<Rightarrow> Inl (HTTPException 500 (''Analysis failed: '' @ str_exn e))
           | Inr all_analyses \<Rightarrow> Inr all_analyses))"

subsection \<open>\<^verbatim>\<open>extract_text_from_pdf\<close>\<close>

definition page_text :: "string option \<Rightarrow> string" where
  "page_text p = (case p of None \<Rightarrow> [] | Some t \<Rightarrow> if t = [] then [] else t @ newline)"

definition extract_text_from_pdf :: "env \<Rightarrow> string \<Rightarrow> exn + string" where
  "extract_text_from_pdf E file_content =
     (case pdf_pages E file_content of
        Inl msg \<Rightarrow> Inl (HTTPException 400 (''Error processing PDF: '' @ msg))
      | Inr pages \<Rightarrow> Inr (strip (concat (map page_text pages))))"

subsection \<open>The endpoint \<^verbatim>\<open>upload_contract\<close>\<close>

text \<open>
  The checks on the file name, which run before the \<^verbatim>\<open>try\<close>. A request
  without a file name makes \<^verbatim>\<open>file.filename.lower()\<close> raise an
  \<^verbatim>\<open>AttributeError\<close>.
\<close>

definition validate_file_type :: "string option \<Rightarrow> exn + string" where
  "validate_file_type file_name =
     (case file_name of
        None \<Rightarrow> Inl (OtherException ''AttributeError'')
      | Some name \<Rightarrow>
          if \<not> endswith (lower name) ''.pdf''
          then Inl (HTTPException 400 ''Only PDF files are currently supported'')
          else if name = [] then Inl (HTTPException 400 ''No filename provided'')
          else Inr name)"

text \<open>\<^verbatim>\<open>db.contract_analyses.insert_one\<close>: the document is appended.\<close>

definition insert_one :: "env \<Rightarrow> analysis list \<Rightarrow> analysis \<Rightarrow> exn + analysis list" where
  "insert_one E db doc =
     (case insert_failure E of
        Some msg \<Rightarrow> Inl (OtherException msg)
      | None \<Rightarrow> Inr (db @ [doc]))"

text \<open>
  \<^verbatim>\<open>ContractAnalysisResult(**analysis_data)\<close>: the field
  \<^verbatim>\<open>analysis_results: List[dict]\<close> is validated, every element has to be a
  \<^verbatim>\<open>dict\<close>; nothing is declared about the keys or values of the elements.
\<close>

definition ContractAnalysisResult :: "analysis \<Rightarrow> exn + analysis" where
  "ContractAnalysisResult data =
     (if list_all is_dict (analysis_results data) then Inr data
      else Inl (OtherException ''ValidationError''))"

text \<open>The body of the \<^verbatim>\<open>try\<close>: the outcome and the collection afterwards.\<close>

definition upload_body :: "env \<Rightarrow> analysis list \<Rightarrow> string \<Rightarrow> string \<Rightarrow> (exn + analysis) \<times> analysis list" where
  "upload_body E db name file_content =
     (if length file_content = 0 then (Inl (HTTPException 400 ''Empty file uploaded''), db)
      else case extract_text_from_pdf E file_content of
        Inl e \<Rightarrow> (Inl e, db)
      | Inr contract_text \<Rightarrow>
          if strip contract_text = []
          then (Inl (HTTPException 400 ''No text could be extracted from the PDF''), db)
          else case analyze_contract_with_llm E contract_text of
            Inl e \<Rightarrow> (Inl e, db)
          | Inr results \<Rightarrow>
              (let analysis_data =
                 \<lparr>id_str = uuid4 E, filename = name, analysis_results = results,
                  processed_at = now E\<rparr>
               in case insert_one E db analysis_data of
                 Inl e \<Rightarrow> (Inl e, db)
               | Inr db' \<Rightarrow> (ContractAnalysisResult analysis_data, db')))"

text \<open>
  \<^verbatim>\<open>except HTTPException: raise\<close> and
  \<^verbatim>\<open>except Exception as e: raise HTTPException(500, ...)\<close>.
\<close>

fun reraise :: "exn + analysis \<Rightarrow> exn + analysis" where
  "reraise (Inl (HTTPException status detail)) = Inl (HTTPException status detail)"
| "reraise (Inl e) = Inl (HTTPException 500 (''Processing failed: '' @ str_exn e))"
| "reraise (Inr r) = Inr r"

definition upload_contract ::
  "env \<Rightarrow> analysis list \<Rightarrow> string option \<Rightarrow> string \<Rightarrow> (exn + analysis) \<times> analysis list" where
  "upload_contract E db file_name file_content =
     (case validate_file_type file_name of
        Inl e \<Rightarrow> (Inl e, db)
      | Inr name \<Rightarrow>
          (case upload_body E db name file_content of
             (outcome, db') \<Rightarrow> (reraise outcome, db')))"

text \<open>
  The status code of the response: 200 with the record, the code of an
  \<^verbatim>\<open>HTTPException\<close>, and 500 for an exception nobody handles.
\<close>

fun status_code :: "exn + analysis \<Rightarrow> nat" where
  "status_code (Inr r) = 200"
| "status_code (Inl (HTTPException status detail)) = status"
| "status_code (Inl e) = 500"

subsection \<open>The shape of a finding in the specification\<close>

text \<open>
  This predicate does not come from the program. It writes out the shape that the
  specification gives to a finding: an object whose fields \<open>clause_text\<close>,
  \<open>issue_detected\<close>, \<open>explanation\<close>, \<open>suggested_alternative\<close> and \<open>risk_level\<close>
  are all strings, with \<open>risk_level\<close> one of \<open>High\<close>, \<open>Medium\<close> and \<open>Low\<close>.
\<close>

fun string_field :: "(string \<times> json) list \<Rightarrow> string \<Rightarrow> bool" where
  "string_field kvs key = (case map_of kvs key of Some (JString s) \<Rightarrow> True | _ \<Rightarrow> False)"

fun spec_finding :: "json \<Rightarrow> bool" where
  "spec_finding (JObject kvs) =
     (string_field kvs ''clause_text'' \<and> string_field kvs ''issue_detected''
      \<and> string_field kvs ''explanation'' \<and> string_field kvs ''suggested_alternative''
      \<and> (map_of kvs ''risk_level'' = Some (JString ''High'')
           \<or> map_of kvs ''risk_level'' = Some (JString ''Medium'')
           \<or> map_of kvs ''risk_level'' = Some (JString ''Low'')))"
| "spec_finding _ = False"

subsection \<open>Sample surroundings\<close>

text \<open>
  Concrete surroundings for running the model on examples. \<open>sample_loads\<close> is
  \<^verbatim>\<open>json.loads\<close> on the four JSON documents that the examples use; every
  other string of the examples is prose, for which \<^verbatim>\<open>json.loads\<close> raises
  \<^verbatim>\<open>JSONDecodeError\<close>.
\<close>

definition sample_loads :: "string \<Rightarrow> exn + json" where
  \<open>sample_loads s =
     (if s = ''[]'' then Inr (JArray [])
      else if s = ''[{"risk_level": "Critical"}]''
      then Inr (JArray [JObject [(''risk_level'', JString ''Critical'')]])
      else if s = ''[{"risk_level": "High"}]''
      then Inr (JArray [JObject [(''risk_level'', JString ''High'')]])
      else if s = ''{"findings": []}''
      then Inr (JObject [(''findings'', JArray [])])
      else Inl (JSONDecodeError ''Expecting value: line 1 column 1 (char 0)''))\<close>

text \<open>
  A configured key, a PDF of one page with one sentence, a chat session given by \<open>chat\<close>,
  and a store that accepts the document.
\<close>

definition sample_env :: "(nat \<Rightarrow> string \<Rightarrow> string + string) \<Rightarrow> env" where
  "sample_env chat =
     \<lparr>llm_key = Some ''sk-test'',
      pdf_pages = (\<lambda>file_content. Inr [Some ''Either party may terminate at will.'']),
      send_message = chat,
      json_loads = sample_loads,
      uuid4 = ''6f1c2a3e-0000-4000-8000-000000000001'',
      now = ''2025-01-01T00:00:00+00:00'',
      insert_failure = None\<rparr>"

text \<open>A chat session that finds nothing, and two uploads that the PDF reader cannot use.\<close>

definition empty_chat :: "nat \<Rightarrow> string \<Rightarrow> string + string" where
  "empty_chat i p = Inr ''[]''"

definition broken_pdf_env :: env where
  "broken_pdf_env =
     (sample_env empty_chat)
       \<lparr>pdf_pages := (\<lambda>file_content. Inl ''No /Root object! - Is this really a PDF?'')\<rparr>"

definition scanned_pdf_env :: env where
  "scanned_pdf_env =
     (sample_env empty_chat)\<lparr>pdf_pages := (\<lambda>file_content. Inr [None, Some '' ''])\<rparr>"

text \<open>
  Two more chat sessions: one that reports the same finding for every chunk, and one whose
  second and later round trips fail.
\<close>

definition high_chat :: "nat \<Rightarrow> string \<Rightarrow> string + string" where
  \<open>high_chat i p = Inr ''[{"risk_level": "High"}]''\<close>

definition flaky_chat :: "nat \<Rightarrow> string \<Rightarrow> string + string" where
  \<open>flaky_chat i p =
     (if i = 0 then Inr ''[{"risk_level": "High"}]'' else Inl ''Connection timed out'')\<close>

text \<open>A chat session that grades a clause with a level outside the three of the prompt.\<close>

definition critical_chat :: "nat \<Rightarrow> string \<Rightarrow> string + string" where
  \<open>critical_chat i p = Inr ''[{"risk_level": "Critical"}]''\<close>









text \<open>
  A PDF whose text has two words, of 15000 and 14999 characters, and so two chunks, read by
  the chat session whose second round trip fails.
\<close>

definition long_text :: string where
  "long_text = replicate 15000 CHR ''a'' @ CHR '' '' # replicate 14999 CHR ''b''"

definition long_pdf_env :: env where
  "long_pdf_env = (sample_env flaky_chat)\<lparr>pdf_pages := (\<lambda>file_content. Inr [Some long_text])\<rparr>"

text \<open>A word as \<^const>\<open>split\<close> yields it: non-empty, without whitespace.\<close>

definition is_word :: "string \<Rightarrow> bool" where
  "is_word w = (w \<noteq> [] \<and> (\<forall>c\<in>set w. \<not> isspace c))"

section \<open>Properties\<close>

subsection \<open>Splitting and joining\<close>

lemma split_from_nonspace:
  "\<forall>c\<in>set w. \<not> isspace c \<Longrightarrow> split_from cur (w @ s) = split_from (cur @ w) s"
  by (induction w arbitrary: cur) simp_all

lemma split_from_words:
  "\<forall>c\<in>set cur. \<not> isspace c \<Longrightarrow> \<forall>w\<in>set (split_from cur s). is_word w"
proof (induction s arbitrary: cur)
  case Nil
  then show ?case by (simp add: is_word_def)
next
  case (Cons c cs)
  have empty: "\<forall>w\<in>set (split_from [] cs). is_word w"
    by (rule Cons.IH) simp
  show ?case
  proof (cases "isspace c")
    case True
    with empty Cons.prems show ?thesis by (simp add: is_word_def)
  next
    case False
    with Cons.prems have "\<forall>d\<in>set (cur @ [c]). \<not> isspace d" by simp
    from Cons.IH [OF this] False show ?thesis by simp
  qed
qed

lemma split_words: "\<forall>w\<in>set (split s). is_word w"
  using split_from_words [of "[]" s] by (simp add: split_def)

lemma isspace_blank: "isspace CHR '' ''"
  by (simp add: isspace_def)

lemma split_join: "\<forall>w\<in>set ws. is_word w \<Longrightarrow> split (join ws) = ws"
proof (induction ws rule: join.induct)
  case 1
  show ?case by (simp add: split_def)
next
  case (2 w)
  then have "split_from [] (w @ []) = split_from ([] @ w) []"
    by (intro split_from_nonspace) (simp add: is_word_def)
  with 2 show ?case by (simp add: split_def is_word_def)
next
  case (3 w v ws)
  from 3 have w: "\<forall>c\<in>set w. \<not> isspace c" "w \<noteq> []" by (simp_all add: is_word_def)
  have "split (join (w # v # ws)) = split_from [] (w @ CHR '' '' # join (v # ws))"
    by (simp add: split_def)
  also have "\<dots> = split_from w (CHR '' '' # join (v # ws))"
    using split_from_nonspace [OF w(1), of "[]"] by simp
  also have "\<dots> = w # split (join (v # ws))"
    using w(2) by (simp add: isspace_blank split_def)
  finally have step: "split (join (w # v # ws)) = w # split (join (v # ws))" .
  from 3 have "split (join (v # ws)) = v # ws" by simp
  with step show ?case by (simp only:)
qed

lemma split_from_word_blank:
  assumes "\<forall>c\<in>set w. \<not> isspace c" and "w \<noteq> []"
  shows "split_from [] (w @ CHR '' '' # s) = w # split_from [] s"
proof -
  have "split_from [] (w @ CHR '' '' # s) = split_from w (CHR '' '' # s)"
    using split_from_nonspace [OF assms(1), of "[]"] by simp
  also have "\<dots> = w # split_from [] s"
    using assms(2) by (simp add: isspace_blank)
  finally show ?thesis .
qed

subsection \<open>The word loop\<close>

lemma chunk_step_flush:
  "budget < n + length w \<Longrightarrow> cur \<noteq> [] \<Longrightarrow>
   chunk_step budget (chunks, cur, n) w = (chunks @ [join cur], [w], length w)"
  by (simp add: chunk_step_def)

lemma chunk_step_append:
  "\<not> (budget < n + length w \<and> cur \<noteq> []) \<Longrightarrow>
   chunk_step budget (chunks, cur, n) w = (chunks, cur @ [w], n + length w + 1)"
  by (simp add: chunk_step_def)

lemma chunk_loop_words:
  assumes "\<forall>w\<in>set ws. is_word w" and "\<forall>w\<in>set cur. is_word w"
    and "foldl (chunk_step budget) (chunks, cur, n) ws = (chunks', cur', n')"
  shows "concat (map split chunks') @ cur' = concat (map split chunks) @ cur @ ws
         \<and> (\<forall>w\<in>set cur'. is_word w)"
  using assms
proof (induction ws arbitrary: chunks cur n)
  case Nil
  then show ?case by simp
next
  case (Cons w ws)
  from Cons.prems(1) have ws: "\<forall>w\<in>set ws. is_word w" and w: "is_word w" by simp_all
  from Cons.prems(3)
  have run: "foldl (chunk_step budget) (chunk_step budget (chunks, cur, n) w) ws = (chunks', cur', n')"
    by (simp only: foldl_Cons)
  show ?case
  proof (cases "budget < n + length w \<and> cur \<noteq> []")
    case True
    then have "chunk_step budget (chunks, cur, n) w = (chunks @ [join cur], [w], length w)"
      by (simp add: chunk_step_flush)
    with run have r: "foldl (chunk_step budget) (chunks @ [join cur], [w], length w) ws = (chunks', cur', n')"
      by (simp only:)
    have "\<forall>v\<in>set [w]. is_word v" using w by simp
    from Cons.IH [OF ws this r] Cons.prems(2) show ?thesis
      by (simp add: split_join)
  next
    case False
    then have "chunk_step budget (chunks, cur, n) w = (chunks, cur @ [w], n + length w + 1)"
      by (rule chunk_step_append)
    with run have r: "foldl (chunk_step budget) (chunks, cur @ [w], n + length w + 1) ws = (chunks', cur', n')"
      by (simp only:)
    have "\<forall>v\<in>set (cur @ [w]). is_word v" using w Cons.prems(2) by simp
    from Cons.IH [OF ws this r] show ?thesis
      by simp
  qed
qed


subsection \<open>Text within the budget\<close>

text \<open>
  Claim C7. For every text whose length is at most the chunk budget (in particular every
  non-empty trimmed one), the chunker returns exactly one chunk, equal to the full input
  text; the word loop is not run.
\<close>

theorem single_chunk_within_budget:
  assumes "contract_text \<noteq> []" and "strip contract_text = contract_text"
    and "length contract_text \<le> budget"
  shows "chunk_text budget contract_text = [contract_text]"
  using assms by (simp add: chunk_text_def)

theorem single_chunk_within_budget_witness:
  "''No risk here.'' \<noteq> [] \<and> strip ''No risk here.'' = ''No risk here.''
   \<and> length ''No risk here.'' \<le> max_chunk_size
   \<and> chunk_text max_chunk_size ''No risk here.'' = [''No risk here.'']"
proof -
  have a: "''No risk here.'' \<noteq> []" by simp
  have b: "strip ''No risk here.'' = ''No risk here.''"
    by (simp add: strip_def isspace_def)
  have c: "length ''No risk here.'' \<le> max_chunk_size"
    by (simp add: max_chunk_size_def)
  from single_chunk_within_budget [OF a b c] a b c show ?thesis by simp
qed

subsection \<open>Words are preserved\<close>

text \<open>
  Claim C8. For every input text (and every budget), the whitespace-delimited words of the
  chunks, taken in chunk order, are exactly the words of the text in their order: no word is
  split, dropped, duplicated or moved. Joining them with single spaces therefore gives the
  same string for the chunks and for the text.
\<close>

theorem chunks_preserve_words:
  "concat (map split (chunk_text budget contract_text)) = split contract_text
   \<and> join (concat (map split (chunk_text budget contract_text))) = join (split contract_text)"
proof -
  have "concat (map split (chunk_text budget contract_text)) = split contract_text"
  proof (cases "length contract_text > budget")
    case False
    then show ?thesis by (simp add: chunk_text_def)
  next
    case True
    obtain chunks cur n where l: "chunk_loop budget (split contract_text) = (chunks, cur, n)"
      by (cases "chunk_loop budget (split contract_text)") auto
    have "\<forall>w\<in>set ([]::string list). is_word w" by simp
    from chunk_loop_words [OF split_words this l [unfolded chunk_loop_def]]
    have inv: "concat (map split chunks) @ cur = split contract_text"
      and cur: "\<forall>w\<in>set cur. is_word w"
      by simp_all
    have ct: "chunk_text budget contract_text = (if cur \<noteq> [] then chunks @ [join cur] else chunks)"
      using True by (simp add: chunk_text_def l)
    show ?thesis
    proof (cases "cur = []")
      case True
      with ct inv show ?thesis by simp
    next
      case False
      with ct have "concat (map split (chunk_text budget contract_text))
          = concat (map split chunks) @ split (join cur)" by simp
      also have "\<dots> = concat (map split chunks) @ cur"
        using split_join [OF cur] by simp
      finally show ?thesis using inv by simp
    qed
  qed
  then show ?thesis by simp
qed

subsection \<open>The size of a chunk\<close>

text \<open>
  Claim C4. Every chunk is at most as long as the budget unless it consists of one word that
  is itself longer than the budget. The program does not keep this bound: when a chunk is
  flushed, \<open>current_length\<close> restarts at \<open>len(word)\<close>, without the \<open>+ 1\<close> for the
  separator that the other branch counts, so every later chunk may be one character longer
  than the budget. The theorem runs the chunker at the program's budget of 15000 on a text of
  three words, of 15000, 14999 and 1 characters (none longer than the budget): the second
  chunk joins the last two words and has 15001 characters.
\<close>

theorem chunk_exceeds_budget:
  "split (replicate 15000 CHR ''a'' @ CHR '' '' # replicate 14999 CHR ''b'' @ '' c'')
     = [replicate 15000 CHR ''a'', replicate 14999 CHR ''b'', ''c'']
   \<and> chunk_text max_chunk_size
        (replicate 15000 CHR ''a'' @ CHR '' '' # replicate 14999 CHR ''b'' @ '' c'')
     = [replicate 15000 CHR ''a'', replicate 14999 CHR ''b'' @ '' c'']
   \<and> length (replicate 14999 CHR ''b'' @ '' c'') = max_chunk_size + 1"
proof -
  let ?A = "replicate 15000 CHR ''a''"
  let ?B = "replicate 14999 CHR ''b''"
  have a: "\<forall>d\<in>set ?A. \<not> isspace d" by (simp add: isspace_def)
  have b: "\<forall>d\<in>set ?B. \<not> isspace d" by (simp add: isspace_def)
  have an: "?A \<noteq> []" and bn: "?B \<noteq> []" by simp_all
  have c: "split_from [] ''c'' = [''c'']" by (simp add: isspace_def)
  have "split (?A @ CHR '' '' # ?B @ '' c'') = ?A # split_from [] (?B @ CHR '' '' # ''c'')"
    unfolding split_def using split_from_word_blank [OF a an] by simp
  also have "\<dots> = ?A # ?B # split_from [] ''c''"
    using split_from_word_blank [OF b bn] by simp
  finally have sp: "split (?A @ CHR '' '' # ?B @ '' c'') = [?A, ?B, ''c'']"
    using c by simp
  have s1: "chunk_step 15000 ([], [], 0) ?A = ([], [?A], 15001)"
    by (simp add: chunk_step_def)
  have s2: "chunk_step 15000 ([], [?A], 15001) ?B = ([?A], [?B], 14999)"
    by (simp add: chunk_step_def)
  have s3: "chunk_step 15000 ([?A], [?B], 14999) ''c'' = ([?A], [?B, ''c''], 15001)"
    by (simp add: chunk_step_def)
  have loop: "chunk_loop 15000 [?A, ?B, ''c''] = ([?A], [?B, ''c''], 15001)"
    by (simp only: chunk_loop_def foldl_Cons foldl_Nil s1 s2 s3)
  have len: "length (?A @ CHR '' '' # ?B @ '' c'') > 15000" by simp
  have "chunk_text 15000 (?A @ CHR '' '' # ?B @ '' c'') = [?A, ?B @ '' c'']"
    unfolding chunk_text_def using len by (simp only: sp loop if_True) simp
  then show ?thesis using sp by (simp add: max_chunk_size_def)
qed

subsection \<open>The checks on the file name\<close>

lemma endswith_pdf_nonempty: "endswith (lower name) ''.pdf'' \<Longrightarrow> name \<noteq> []"
  by (auto simp add: endswith_def lower_def)

lemma validate_file_type_cases:
  "validate_file_type file_name = Inl (OtherException ''AttributeError'')
   \<or> validate_file_type file_name = Inl (HTTPException 400 ''Only PDF files are currently supported'')
   \<or> (\<exists>name. file_name = Some name \<and> endswith (lower name) ''.pdf''
        \<and> validate_file_type file_name = Inr name)"
  using endswith_pdf_nonempty
  by (cases file_name) (auto simp add: validate_file_type_def)

lemma analyze_contract_with_llm_error:
  "analyze_contract_with_llm E contract_text = Inl e \<Longrightarrow>
   \<exists>detail. e = HTTPException 500 (''Analysis failed: '' @ detail)"
  by (auto simp add: analyze_contract_with_llm_def Let_def split: sum.splits)

lemma extract_text_from_pdf_error:
  "extract_text_from_pdf E file_content = Inl e \<Longrightarrow>
   \<exists>msg. e = HTTPException 400 (''Error processing PDF: '' @ msg)"
  by (auto simp add: extract_text_from_pdf_def split: sum.splits)

lemma upload_body_not_no_filename:
  "reraise (fst (upload_body E db name file_content)) \<noteq> Inl (HTTPException 400 ''No filename provided'')"
proof (cases "file_content = []")
  case True
  then show ?thesis by (simp add: upload_body_def)
next
  case nonempty: False
  show ?thesis
  proof (cases "extract_text_from_pdf E file_content")
    case (Inl e)
    with extract_text_from_pdf_error [OF Inl] nonempty show ?thesis
      by (auto simp add: upload_body_def)
  next
    case (Inr contract_text)
    show ?thesis
    proof (cases "strip contract_text = []")
      case True
      with Inr nonempty show ?thesis by (simp add: upload_body_def)
    next
      case has_text: False
      show ?thesis
      proof (cases "analyze_contract_with_llm E contract_text")
        case (Inl e)
        with analyze_contract_with_llm_error [OF Inl] Inr nonempty has_text show ?thesis
          by (auto simp add: upload_body_def)
      next
        case results: (Inr results)
        with Inr nonempty has_text show ?thesis
          by (auto simp add: upload_body_def insert_one_def ContractAnalysisResult_def Let_def
              split: option.splits)
      qed
    qed
  qed
qed

text \<open>
  Claim C10. An upload whose file name is the empty string is rejected with status 400 and
  the detail "Only PDF files are currently supported" by the extension check, and the store
  is left as it was. The later branch with the detail "No filename provided" is taken by no
  request: neither the checks on the file name nor the endpoint ever answer with it.
\<close>

theorem no_filename_branch_unreachable:
  "upload_contract E db (Some []) file_content
     = (Inl (HTTPException 400 ''Only PDF files are currently supported''), db)
   \<and> validate_file_type file_name \<noteq> Inl (HTTPException 400 ''No filename provided'')
   \<and> fst (upload_contract E db file_name file_content)
       \<noteq> Inl (HTTPException 400 ''No filename provided'')"
proof -
  have first: "upload_contract E db (Some []) file_content
     = (Inl (HTTPException 400 ''Only PDF files are currently supported''), db)"
    by (simp add: upload_contract_def validate_file_type_def endswith_def lower_def)
  have second: "validate_file_type file_name \<noteq> Inl (HTTPException 400 ''No filename provided'')"
    using validate_file_type_cases [of file_name] by auto
  have third: "fst (upload_contract E db file_name file_content)
       \<noteq> Inl (HTTPException 400 ''No filename provided'')"
  proof (cases "validate_file_type file_name")
    case (Inl e)
    with second show ?thesis by (simp add: upload_contract_def)
  next
    case (Inr name)
    then have "fst (upload_contract E db file_name file_content)
        = reraise (fst (upload_body E db name file_content))"
      by (simp add: upload_contract_def split: prod.splits)
    with upload_body_not_no_filename show ?thesis by simp
  qed
  from first second third show ?thesis by simp
qed

subsection \<open>Failures of the upload before the analysis\<close>

lemma validate_file_type_pdf:
  "endswith (lower name) ''.pdf'' \<Longrightarrow> validate_file_type (Some name) = Inr name"
  using endswith_pdf_nonempty [of name] by (simp add: validate_file_type_def)

lemma upload_contract_pdf:
  "endswith (lower name) ''.pdf'' \<Longrightarrow>
   upload_contract E db (Some name) file_content =
     (reraise (fst (upload_body E db name file_content)), snd (upload_body E db name file_content))"
  by (simp add: upload_contract_def validate_file_type_pdf split: prod.splits)

text \<open>
  Claim C6, as the program has it. An upload with a name ending in \<open>.pdf\<close> (in any case) and
  non-empty bytes for which the PDF library raises is answered with status 400 and the detail
  "Error processing PDF: ...", not with 500: \<^verbatim>\<open>extract_text_from_pdf\<close> raises
  an \<^verbatim>\<open>HTTPException\<close> with status 400 and the endpoint re-raises it unchanged.
  A wrong extension, an empty file and a PDF without extractable text are answered with 400
  as well. In all four cases the store is left as it was. The last theorem of this
  subsection runs the endpoint on an upload that the PDF library rejects.
\<close>

theorem pdf_failure_is_400:
  "(endswith (lower name) ''.pdf'' \<and> file_content \<noteq> [] \<and> pdf_pages E file_content = Inl msg
      \<longrightarrow> upload_contract E db (Some name) file_content
            = (Inl (HTTPException 400 (''Error processing PDF: '' @ msg)), db))
   \<and> (\<not> endswith (lower name) ''.pdf''
      \<longrightarrow> upload_contract E db (Some name) file_content
            = (Inl (HTTPException 400 ''Only PDF files are currently supported''), db))
   \<and> (endswith (lower name) ''.pdf'' \<and> file_content = []
      \<longrightarrow> upload_contract E db (Some name) file_content
            = (Inl (HTTPException 400 ''Empty file uploaded''), db))
   \<and> (endswith (lower name) ''.pdf'' \<and> file_content \<noteq> [] \<and> pdf_pages E file_content = Inr pages
       \<and> strip (concat (map page_text pages)) = []
      \<longrightarrow> upload_contract E db (Some name) file_content
            = (Inl (HTTPException 400 ''No text could be extracted from the PDF''), db))"
proof -
  have a: "upload_contract E db (Some name) file_content
            = (Inl (HTTPException 400 (''Error processing PDF: '' @ msg)), db)"
    if "endswith (lower name) ''.pdf''" "file_content \<noteq> []" "pdf_pages E file_content = Inl msg"
    using that by (simp add: upload_contract_pdf upload_body_def extract_text_from_pdf_def)
  have b: "upload_contract E db (Some name) file_content
            = (Inl (HTTPException 400 ''Only PDF files are currently supported''), db)"
    if "\<not> endswith (lower name) ''.pdf''"
    using that by (simp add: upload_contract_def validate_file_type_def)
  have c: "upload_contract E db (Some name) file_content
            = (Inl (HTTPException 400 ''Empty file uploaded''), db)"
    if "endswith (lower name) ''.pdf''" "file_content = []"
    using that by (simp add: upload_contract_pdf upload_body_def)
  have d: "upload_contract E db (Some name) file_content
            = (Inl (HTTPException 400 ''No text could be extracted from the PDF''), db)"
    if "endswith (lower name) ''.pdf''" "file_content \<noteq> []" "pdf_pages E file_content = Inr pages"
      "strip (concat (map page_text pages)) = []"
  proof -
    from that have ex: "extract_text_from_pdf E file_content = Inr []"
      by (simp add: extract_text_from_pdf_def)
    have se: "strip [] = []" by (simp add: strip_def)
    from that(1,2) ex se show ?thesis
      by (simp add: upload_contract_pdf upload_body_def)
  qed
  from a b c d show ?thesis by blast
qed

lemma sample_name: "endswith (lower ''contract.pdf'') ''.pdf''"
  by (simp add: endswith_def lower_def lower_char_def)

theorem pdf_failure_is_400_witness:
  "upload_contract broken_pdf_env [] (Some ''contract.pdf'') ''%PDF-1.4 truncated''
   = (Inl (HTTPException 400 ''Error processing PDF: No /Root object! - Is this really a PDF?''), [])
   \<and> upload_contract (sample_env empty_chat) [] (Some ''contract.txt'') ''plain text''
   = (Inl (HTTPException 400 ''Only PDF files are currently supported''), [])
   \<and> upload_contract (sample_env empty_chat) [] (Some ''contract.pdf'') []
   = (Inl (HTTPException 400 ''Empty file uploaded''), [])
   \<and> upload_contract scanned_pdf_env [] (Some ''contract.pdf'') ''%PDF-1.4 scanned''
   = (Inl (HTTPException 400 ''No text could be extracted from the PDF''), [])"
proof -
  let ?E = "sample_env empty_chat"
  have not_pdf: "\<not> endswith (lower ''contract.txt'') ''.pdf''"
    by (simp add: endswith_def lower_def lower_char_def)
  have p1: "pdf_pages broken_pdf_env ''%PDF-1.4 truncated''
      = Inl ''No /Root object! - Is this really a PDF?''"
    by (simp add: broken_pdf_env_def)
  have p2: "pdf_pages scanned_pdf_env ''%PDF-1.4 scanned'' = Inr [None, Some '' '']"
    by (simp add: scanned_pdf_env_def)
  have blank: "strip (concat (map page_text [None, Some '' ''])) = []"
    by (simp add: strip_def page_text_def newline_def isspace_def)
  have n1: "''%PDF-1.4 truncated'' \<noteq> []" and n2: "''%PDF-1.4 scanned'' \<noteq> []" by simp_all
  from pdf_failure_is_400 [of "''contract.pdf''" "''%PDF-1.4 truncated''" broken_pdf_env
      "''No /Root object! - Is this really a PDF?''" "[]"] sample_name n1 p1
  have w1: "upload_contract broken_pdf_env [] (Some ''contract.pdf'') ''%PDF-1.4 truncated''
     = (Inl (HTTPException 400 ''Error processing PDF: No /Root object! - Is this really a PDF?''), [])"
    by simp
  from pdf_failure_is_400 [of "''contract.txt''" "''plain text''" ?E "[]" "[]"] not_pdf
  have w2: "upload_contract ?E [] (Some ''contract.txt'') ''plain text''
     = (Inl (HTTPException 400 ''Only PDF files are currently supported''), [])"
    by blast
  from pdf_failure_is_400 [of "''contract.pdf''" "[]" ?E "[]" "[]"] sample_name
  have w3: "upload_contract ?E [] (Some ''contract.pdf'') []
     = (Inl (HTTPException 400 ''Empty file uploaded''), [])"
    by blast
  from pdf_failure_is_400 [of "''contract.pdf''" "''%PDF-1.4 scanned''" scanned_pdf_env "[]" "[]"
      "[None, Some '' '']"] sample_name n2 p2 blank
  have w4: "upload_contract scanned_pdf_env [] (Some ''contract.pdf'') ''%PDF-1.4 scanned''
     = (Inl (HTTPException 400 ''No text could be extracted from the PDF''), [])"
    by blast
  from w1 w2 w3 w4 show ?thesis by blast
qed

theorem pdf_failure_not_500:
  "status_code (fst (upload_contract broken_pdf_env [] (Some ''contract.pdf'')
      ''%PDF-1.4 truncated'')) = 400
   \<and> status_code (fst (upload_contract broken_pdf_env [] (Some ''contract.pdf'')
      ''%PDF-1.4 truncated'')) \<noteq> 500"
  by (simp add: upload_contract_def validate_file_type_def endswith_def lower_def lower_char_def
      upload_body_def extract_text_from_pdf_def broken_pdf_env_def)

subsection \<open>The per-chunk loop\<close>

lemma analyze_chunks_concat:
  assumes "length replies = length chunks" and "length found = length chunks"
    and "\<forall>k<length chunks.
           send_message E (i + k) (prompt (chunks ! k) (i + k + 1) n) = Inr (replies ! k)"
    and "\<forall>k<length chunks. parse_response (json_loads E) (replies ! k) = Inr (found ! k)"
  shows "analyze_chunks E n i chunks acc = Inr (acc @ concat found)"
  using assms
proof (induction chunks arbitrary: i acc replies found)
  case Nil
  then show ?case by simp
next
  case (Cons c cs)
  from Cons.prems(1) obtain r rs where replies: "replies = r # rs" and lr: "length rs = length cs"
    by (cases replies) auto
  from Cons.prems(2) obtain f fs where found: "found = f # fs" and lf: "length fs = length cs"
    by (cases found) auto
  from Cons.prems(3) [rule_format, of 0] replies
  have send0: "send_message E i (prompt c (i + 1) n) = Inr r" by simp
  from Cons.prems(4) [rule_format, of 0] replies found
  have parse0: "parse_response (json_loads E) r = Inr f" by simp
  have sends: "\<forall>k<length cs.
      send_message E ((i + 1) + k) (prompt (cs ! k) ((i + 1) + k + 1) n) = Inr (rs ! k)"
  proof (intro allI impI)
    fix k assume "k < length cs"
    then have "Suc k < length (c # cs)" by simp
    from Cons.prems(3) [rule_format, OF this] replies show
      "send_message E ((i + 1) + k) (prompt (cs ! k) ((i + 1) + k + 1) n) = Inr (rs ! k)"
      by simp
  qed
  have parses: "\<forall>k<length cs. parse_response (json_loads E) (rs ! k) = Inr (fs ! k)"
  proof (intro allI impI)
    fix k assume "k < length cs"
    then have "Suc k < length (c # cs)" by simp
    from Cons.prems(4) [rule_format, OF this] replies found show
      "parse_response (json_loads E) (rs ! k) = Inr (fs ! k)"
      by simp
  qed
  from Cons.IH [OF lr lf sends parses, of "acc @ f"]
  have "analyze_chunks E n (i + 1) cs (acc @ f) = Inr ((acc @ f) @ concat fs)" .
  with send0 parse0 found show ?case by simp
qed

lemma analyze_chunks_fails:
  assumes "k < length chunks"
    and "send_message E (i + k) (prompt (chunks ! k) (i + k + 1) n) = Inl msg"
  shows "\<exists>e. analyze_chunks E n i chunks acc = Inl e"
  using assms
proof (induction chunks arbitrary: i k acc)
  case Nil
  then show ?case by simp
next
  case (Cons c cs)
  show ?case
  proof (cases k)
    case 0
    with Cons.prems(2) show ?thesis by simp
  next
    case (Suc j)
    with Cons.prems have j: "j < length cs"
      and fail: "send_message E ((i + 1) + j) (prompt (cs ! j) ((i + 1) + j + 1) n) = Inl msg"
      by simp_all
    show ?thesis
    proof (cases "send_message E i (prompt c (i + 1) n)")
      case (Inl m)
      then show ?thesis by simp
    next
      case (Inr response)
      show ?thesis
      proof (cases "parse_response (json_loads E) response")
        case (Inl e)
        with Inr show ?thesis by simp
      next
        case found: (Inr found)
        from Cons.IH [OF j fail, of "acc @ found"] Inr found show ?thesis by simp
      qed
    qed
  qed
qed

lemma get_llm_chat_sample: "get_llm_chat (sample_env chat) = Inr ()"
  by (simp add: get_llm_chat_def sample_env_def)

lemma parse_high:
  \<open>parse_response sample_loads ''[{"risk_level": "High"}]''
     = Inr [JObject [(''risk_level'', JString ''High'')]]\<close>
  by (simp add: parse_response_def strip_def isspace_def sample_loads_def)

text \<open>
  Claim C9. For every chunk sequence, every family of replies and every family of finding
  lists parsed from them, the loop returns the findings collected so far followed by the
  concatenation of the per-chunk lists, in chunk order and with each list in the order in
  which it was decoded; nothing is merged, removed or reordered. When the chat client is
  configured, \<^verbatim>\<open>analyze_contract_with_llm\<close> returns exactly that
  concatenation for the chunks of the text. In the example that follows, the same clause
  sits in two chunks and the result holds its finding twice.
\<close>

theorem findings_are_concatenated:
  assumes "length replies = length chunks" and "length found = length chunks"
    and "\<forall>k<length chunks.
           send_message E (i + k) (prompt (chunks ! k) (i + k + 1) n) = Inr (replies ! k)"
    and "\<forall>k<length chunks. parse_response (json_loads E) (replies ! k) = Inr (found ! k)"
  shows "analyze_chunks E n i chunks all_analyses = Inr (all_analyses @ concat found)
    \<and> (get_llm_chat E = Inr () \<and> chunks = chunk_text max_chunk_size contract_text
         \<and> i = 0 \<and> n = length chunks
       \<longrightarrow> analyze_contract_with_llm E contract_text = Inr (concat found))"
proof -
  have loop: "analyze_chunks E n i chunks acc = Inr (acc @ concat found)" for acc
    using assms by (rule analyze_chunks_concat)
  have "analyze_contract_with_llm E contract_text = Inr (concat found)"
    if "get_llm_chat E = Inr ()" "chunks = chunk_text max_chunk_size contract_text"
      "i = 0" "n = length chunks"
    using that loop [of "[]"] by (simp add: analyze_contract_with_llm_def)
  with loop [of all_analyses] show ?thesis by blast
qed

theorem findings_are_concatenated_witness:
  \<open>analyze_chunks (sample_env high_chat) 2 0
       [''The Company may terminate at any time.'', ''The Company may terminate at any time.''] []
     = Inr [JObject [(''risk_level'', JString ''High'')], JObject [(''risk_level'', JString ''High'')]]
   \<and> analyze_contract_with_llm (sample_env high_chat) ''The Company may terminate at any time.''
     = Inr [JObject [(''risk_level'', JString ''High'')]]\<close>
proof -
  let ?E = "sample_env high_chat"
  let ?c = "''The Company may terminate at any time.''"
  let ?r = \<open>''[{"risk_level": "High"}]''\<close>
  let ?f = "[JObject [(''risk_level'', JString ''High'')]]"
  have send: "send_message ?E j p = Inr ?r" for j p
    by (simp add: sample_env_def high_chat_def)
  have parse: "parse_response (json_loads ?E) ?r = Inr ?f"
    using parse_high by (simp add: sample_env_def)
  have two: "[x, x] ! k = x" if "k < length [y, y]" for x :: "'a" and y :: string and k
    using that by (cases k) simp_all
  have s2: "\<forall>k<length [?c, ?c].
      send_message ?E (0 + k) (prompt ([?c, ?c] ! k) (0 + k + 1) 2) = Inr ([?r, ?r] ! k)"
    using send two [of _ ?c ?r] by simp
  have p2: "\<forall>k<length [?c, ?c]. parse_response (json_loads ?E) ([?r, ?r] ! k) = Inr ([?f, ?f] ! k)"
    using parse two [of _ ?c ?r] two [of _ ?c ?f] by simp
  have l2: "length [?r, ?r] = length [?c, ?c]" "length [?f, ?f] = length [?c, ?c]" by simp_all
  from findings_are_concatenated [OF l2 s2 p2, of "[]"]
  have first: "analyze_chunks ?E 2 0 [?c, ?c] [] = Inr (?f @ ?f)" by simp
  have ct: "[?c] = chunk_text max_chunk_size ?c"
    by (simp add: chunk_text_def max_chunk_size_def)
  have s1: "\<forall>k<length [?c].
      send_message ?E (0 + k) (prompt ([?c] ! k) (0 + k + 1) (length [?c])) = Inr ([?r] ! k)"
    using send by simp
  have p1: "\<forall>k<length [?c]. parse_response (json_loads ?E) ([?r] ! k) = Inr ([?f] ! k)"
    using parse by simp
  have l1: "length [?r] = length [?c]" "length [?f] = length [?c]" by simp_all
  from findings_are_concatenated [OF l1 s1 p1, of "[]" ?c] get_llm_chat_sample [of high_chat] ct
  have second: "analyze_contract_with_llm ?E ?c = Inr ?f" by simp
  from first second show ?thesis by simp
qed

subsection \<open>A failed round trip\<close>

lemma strip_core:
  assumes "s \<noteq> []" and "\<not> isspace (hd s)" and "\<not> isspace (last s)"
    and "\<forall>c\<in>set ws. isspace c"
  shows "strip (s @ ws) = s"
proof -
  from assms(1,2) have lead: "dropWhile isspace (s @ ws) = s @ ws"
    by (cases s) simp_all
  from assms(1,3) have trail: "dropWhile isspace (rev s) = rev s"
    by (cases s rule: rev_cases) simp_all
  from assms(4) have "dropWhile isspace (rev ws @ rev s) = dropWhile isspace (rev s)"
    by (intro dropWhile_append2) simp
  with lead trail show ?thesis by (simp add: strip_def)
qed

lemma long_text_chunks:
  "chunk_text max_chunk_size long_text = [replicate 15000 CHR ''a'', replicate 14999 CHR ''b'']"
proof -
  let ?A = "replicate 15000 CHR ''a''"
  let ?B = "replicate 14999 CHR ''b''"
  have a: "\<forall>d\<in>set ?A. \<not> isspace d" by (simp add: isspace_def)
  have b: "\<forall>d\<in>set ?B. \<not> isspace d" by (simp add: isspace_def)
  have an: "?A \<noteq> []" by simp
  have "split_from [] (?B @ []) = split_from ([] @ ?B) []"
    using b by (rule split_from_nonspace)
  then have sb: "split_from [] ?B = [?B]" by simp
  have sp: "split (?A @ CHR '' '' # ?B) = [?A, ?B]"
    unfolding split_def using split_from_word_blank [OF a an, of ?B] sb by simp
  have s1: "chunk_step 15000 ([], [], 0) ?A = ([], [?A], 15001)"
    by (simp add: chunk_step_def)
  have s2: "chunk_step 15000 ([], [?A], 15001) ?B = ([?A], [?B], 14999)"
    by (simp add: chunk_step_def)
  have loop: "chunk_loop 15000 [?A, ?B] = ([?A], [?B], 14999)"
    by (simp only: chunk_loop_def foldl_Cons foldl_Nil s1 s2)
  have len: "length (?A @ CHR '' '' # ?B) > 15000" by simp
  have "chunk_text 15000 (?A @ CHR '' '' # ?B) = [?A, ?B]"
    unfolding chunk_text_def using len by (simp only: sp loop if_True) simp
  then show ?thesis by (simp add: max_chunk_size_def long_text_def)
qed

lemma long_text_strip: "strip (long_text @ ws) = long_text" if "\<forall>c\<in>set ws. isspace c"
proof (rule strip_core)
  show "long_text \<noteq> []" by (simp add: long_text_def)
  show "\<not> isspace (hd long_text)" by (simp add: long_text_def isspace_def)
  show "\<not> isspace (last long_text)" by (simp add: long_text_def isspace_def)
  show "\<forall>c\<in>set ws. isspace c" by (rule that)
qed

lemma long_pdf_extract: "extract_text_from_pdf long_pdf_env file_content = Inr long_text"
proof -
  have ne: "long_text \<noteq> []" by (simp add: long_text_def)
  have "\<forall>c\<in>set newline. isspace c" by (simp add: newline_def isspace_def)
  from long_text_strip [OF this] ne show ?thesis
    by (simp add: extract_text_from_pdf_def long_pdf_env_def page_text_def)
qed

lemma analyze_contract_with_llm_fails:
  assumes "k < length (chunk_text max_chunk_size contract_text)"
    and "send_message E k (prompt (chunk_text max_chunk_size contract_text ! k) (k + 1)
           (length (chunk_text max_chunk_size contract_text))) = Inl msg"
  shows "\<exists>detail. analyze_contract_with_llm E contract_text = Inl (HTTPException 500 detail)"
proof (cases "get_llm_chat E")
  case (Inl e)
  then show ?thesis by (simp add: analyze_contract_with_llm_def)
next
  case (Inr chat)
  from analyze_chunks_fails [of k "chunk_text max_chunk_size contract_text" E 0 _ msg "[]"] assms
  obtain e where "analyze_chunks E (length (chunk_text max_chunk_size contract_text)) 0
      (chunk_text max_chunk_size contract_text) [] = Inl e"
    by auto
  with Inr show ?thesis by (simp add: analyze_contract_with_llm_def)
qed

text \<open>
  Claim C2. If the round trip for some chunk fails, the loop ends with an exception whatever
  findings it had collected, \<^verbatim>\<open>analyze_contract_with_llm\<close> raises an
  \<^verbatim>\<open>HTTPException\<close> with status 500, and an upload that had reached the analysis
  is answered with that exception while the store stays exactly as it was: no record is
  inserted. In the example that follows, the text has two chunks, the first reply carries a
  finding and the second round trip times out.
\<close>

theorem transport_failure_aborts:
  assumes "k < length chunks"
    and "send_message E (i + k) (prompt (chunks ! k) (i + k + 1) n) = Inl msg"
  shows "(\<exists>e. analyze_chunks E n i chunks all_analyses = Inl e)
    \<and> (chunks = chunk_text max_chunk_size contract_text \<and> i = 0 \<and> n = length chunks
       \<longrightarrow> (\<exists>detail. analyze_contract_with_llm E contract_text = Inl (HTTPException 500 detail))
         \<and> (validate_file_type file_name = Inr name \<and> file_content \<noteq> []
              \<and> extract_text_from_pdf E file_content = Inr contract_text
              \<and> strip contract_text \<noteq> []
            \<longrightarrow> (\<exists>detail. upload_contract E db file_name file_content
                   = (Inl (HTTPException 500 detail), db))))"
proof -
  have loop: "\<exists>e. analyze_chunks E n i chunks all_analyses = Inl e"
    using assms by (rule analyze_chunks_fails)
  have whole: "\<exists>detail. analyze_contract_with_llm E contract_text = Inl (HTTPException 500 detail)"
    if "chunks = chunk_text max_chunk_size contract_text" "i = 0" "n = length chunks"
    using that assms analyze_contract_with_llm_fails [of k contract_text E msg] by simp
  have endpoint: "\<exists>detail. upload_contract E db file_name file_content
                   = (Inl (HTTPException 500 detail), db)"
    if c: "chunks = chunk_text max_chunk_size contract_text" "i = 0" "n = length chunks"
      and v: "validate_file_type file_name = Inr name" and ne: "file_content \<noteq> []"
      and ex: "extract_text_from_pdf E file_content = Inr contract_text"
      and st: "strip contract_text \<noteq> []"
  proof -
    from whole [OF c] obtain detail
      where "analyze_contract_with_llm E contract_text = Inl (HTTPException 500 detail)" ..
    with v ne ex st have "upload_contract E db file_name file_content
        = (Inl (HTTPException 500 detail), db)"
      by (simp add: upload_contract_def upload_body_def)
    then show ?thesis ..
  qed
  from loop whole endpoint show ?thesis by blast
qed

theorem transport_failure_aborts_witness:
  "(\<exists>e. analyze_chunks long_pdf_env 2 0
          [replicate 15000 CHR ''a'', replicate 14999 CHR ''b''] [] = Inl e)
   \<and> (\<exists>detail. analyze_contract_with_llm long_pdf_env long_text = Inl (HTTPException 500 detail))
   \<and> (\<exists>detail. upload_contract long_pdf_env [] (Some ''contract.pdf'') ''%PDF-1.4''
          = (Inl (HTTPException 500 detail), []))"
proof -
  let ?cs = "[replicate 15000 CHR ''a'', replicate 14999 CHR ''b'']"
  have k: "(1::nat) < length ?cs" by simp
  have fail: "send_message long_pdf_env (0 + 1) (prompt (?cs ! 1) (0 + 1 + 1) 2)
      = Inl ''Connection timed out''"
    by (simp add: long_pdf_env_def sample_env_def flaky_chat_def)
  have cs: "?cs = chunk_text max_chunk_size long_text"
    by (simp add: long_text_chunks)
  have n: "(2::nat) = length ?cs" by simp
  have v: "validate_file_type (Some ''contract.pdf'') = Inr ''contract.pdf''"
    using sample_name by (rule validate_file_type_pdf)
  have ne: "''%PDF-1.4'' \<noteq> []" by simp
  have ex: "extract_text_from_pdf long_pdf_env ''%PDF-1.4'' = Inr long_text"
    by (rule long_pdf_extract)
  have "strip (long_text @ []) = long_text" by (rule long_text_strip) simp
  then have st: "strip long_text \<noteq> []" by (simp add: long_text_def)
  from transport_failure_aborts [OF k fail, of "[]" long_text "Some ''contract.pdf''"
      "''contract.pdf''" "''%PDF-1.4''" "[]"] cs n v ne ex st
  show ?thesis by blast
qed

subsection \<open>What a stored record holds\<close>

lemma parse_response_items:
  assumes "parse_response loads response = Inr found" and "f \<in> set found"
  shows "\<exists>part. (part = strip response \<or> re_search_array response = Some part)
           \<and> loads part = Inr (JArray found)"
  using assms
  by (auto simp add: parse_response_def split: sum.splits exn.splits option.splits json.splits)

lemma analyze_chunks_origin:
  assumes "analyze_chunks E n i chunks acc = Inr out" and "f \<in> set out"
  shows "f \<in> set acc \<or> (\<exists>j p response found. send_message E j p = Inr response
           \<and> parse_response (json_loads E) response = Inr found \<and> f \<in> set found)"
  using assms
proof (induction chunks arbitrary: i acc)
  case Nil
  then show ?case by simp
next
  case (Cons c cs)
  from Cons.prems(1) obtain response where send: "send_message E i (prompt c (i + 1) n) = Inr response"
    by (cases "send_message E i (prompt c (i + 1) n)") simp_all
  with Cons.prems(1) obtain found where parse: "parse_response (json_loads E) response = Inr found"
    by (cases "parse_response (json_loads E) response") simp_all
  with send Cons.prems(1) have "analyze_chunks E n (i + 1) cs (acc @ found) = Inr out" by simp
  from Cons.IH [OF this Cons.prems(2)] send parse show ?case by auto
qed

lemma analyze_contract_with_llm_origin:
  assumes "analyze_contract_with_llm E contract_text = Inr results" and "f \<in> set results"
  shows "\<exists>j p response found. send_message E j p = Inr response
           \<and> parse_response (json_loads E) response = Inr found \<and> f \<in> set found"
proof -
  let ?chunks = "chunk_text max_chunk_size contract_text"
  from assms(1) have "analyze_chunks E (length ?chunks) 0 ?chunks [] = Inr results"
    by (auto simp add: analyze_contract_with_llm_def Let_def split: sum.splits)
  from analyze_chunks_origin [OF this assms(2)] show ?thesis by simp
qed

lemma upload_body_success:
  assumes "upload_body E db name file_content = (Inr record, db')"
  shows "\<exists>contract_text. analyze_contract_with_llm E contract_text = Inr (analysis_results record)
          \<and> list_all is_dict (analysis_results record) \<and> db' = db @ [record]
          \<and> filename record = name"
  using assms
  by (auto simp add: upload_body_def Let_def insert_one_def ContractAnalysisResult_def
      split: if_splits sum.splits option.splits)

lemma reraise_success: "reraise outcome = Inr record \<Longrightarrow> outcome = Inr record"
  by (cases outcome rule: reraise.cases) simp_all

lemma upload_contract_success:
  assumes "upload_contract E db file_name file_content = (Inr record, db')"
  shows "\<exists>name. file_name = Some name \<and> upload_body E db name file_content = (Inr record, db')"
proof (cases "validate_file_type file_name")
  case (Inl e)
  with assms show ?thesis by (simp add: upload_contract_def)
next
  case (Inr name)
  then have fn: "file_name = Some name"
    by (auto simp add: validate_file_type_def split: option.splits if_splits)
  obtain outcome d where body: "upload_body E db name file_content = (outcome, d)"
    by (cases "upload_body E db name file_content") auto
  with Inr assms have "reraise outcome = Inr record" and "d = db'"
    by (simp_all add: upload_contract_def)
  with body reraise_success fn show ?thesis by auto
qed

lemma sample_upload:
  assumes "\<And>p. chat 0 p = Inr reply" and "parse_response sample_loads reply = Inr items"
    and "list_all is_dict items"
  shows "upload_contract (sample_env chat) db (Some ''contract.pdf'') ''%PDF-1.4''
    = (Inr \<lparr>id_str = ''6f1c2a3e-0000-4000-8000-000000000001'', filename = ''contract.pdf'',
            analysis_results = items, processed_at = ''2025-01-01T00:00:00+00:00''\<rparr>,
       db @ [\<lparr>id_str = ''6f1c2a3e-0000-4000-8000-000000000001'', filename = ''contract.pdf'',
            analysis_results = items, processed_at = ''2025-01-01T00:00:00+00:00''\<rparr>])"
proof -
  let ?E = "sample_env chat"
  let ?t = "''Either party may terminate at will.''"
  have ex: "extract_text_from_pdf ?E ''%PDF-1.4'' = Inr ?t"
    by (simp add: extract_text_from_pdf_def sample_env_def page_text_def newline_def strip_def
        isspace_def)
  have st: "strip ?t \<noteq> []" by (simp add: strip_def isspace_def)
  have ct: "chunk_text max_chunk_size ?t = [?t]"
    by (simp add: chunk_text_def max_chunk_size_def)
  have send: "send_message ?E 0 p = Inr reply" for p
    using assms(1) by (simp add: sample_env_def)
  have loads: "json_loads ?E = sample_loads" by (simp add: sample_env_def)
  have an: "analyze_contract_with_llm ?E ?t = Inr items"
    using send assms(2) loads
    by (simp add: analyze_contract_with_llm_def get_llm_chat_sample ct)
  have ins: "insert_failure ?E = None" "uuid4 ?E = ''6f1c2a3e-0000-4000-8000-000000000001''"
    "now ?E = ''2025-01-01T00:00:00+00:00''"
    by (simp_all add: sample_env_def)
  from ex st an ins assms(3) show ?thesis
    by (simp add: upload_contract_pdf [OF sample_name] upload_body_def insert_one_def
        ContractAnalysisResult_def Let_def)
qed

text \<open>
  Claim C1, as the program has it. The specification gives a finding five string fields and
  one of three risk levels (\<^const>\<open>spec_finding\<close>). The program checks none of this:
  the result type is \<^verbatim>\<open>List[dict]\<close>. What holds for every record that the
  upload endpoint stores and returns is this: the record returned is the one appended to the
  store, every element of its \<^verbatim>\<open>analysis_results\<close> is a
  \<^verbatim>\<open>dict\<close>, and every element is an element of an array decoded from a reply of
  the chat session, either from the whole trimmed reply or from its bracketed part. The last
  theorem of this subsection runs the endpoint on a reply whose only finding has the level
  "Critical" and no other field: the record is stored and returned with it.
\<close>

theorem stored_findings_are_decoded_objects:
  assumes "upload_contract E db file_name file_content = (Inr record, db')"
  shows "db' = db @ [record] \<and> list_all is_dict (analysis_results record)
    \<and> (\<forall>f\<in>set (analysis_results record).
          \<exists>j p response part items. send_message E j p = Inr response
            \<and> (part = strip response \<or> re_search_array response = Some part)
            \<and> json_loads E part = Inr (JArray items) \<and> f \<in> set items)"
proof -
  from upload_contract_success [OF assms] obtain name
    where "upload_body E db name file_content = (Inr record, db')" by blast
  from upload_body_success [OF this] obtain contract_text
    where an: "analyze_contract_with_llm E contract_text = Inr (analysis_results record)"
      and dicts: "list_all is_dict (analysis_results record)" and db': "db' = db @ [record]"
    by blast
  have "\<exists>j p response part items. send_message E j p = Inr response
            \<and> (part = strip response \<or> re_search_array response = Some part)
            \<and> json_loads E part = Inr (JArray items) \<and> f \<in> set items"
    if f: "f \<in> set (analysis_results record)" for f
  proof -
    from analyze_contract_with_llm_origin [OF an f] obtain j p response found
      where send: "send_message E j p = Inr response"
        and parse: "parse_response (json_loads E) response = Inr found" and mem: "f \<in> set found"
      by blast
    from parse_response_items [OF parse mem] obtain part
      where "part = strip response \<or> re_search_array response = Some part"
        and "json_loads E part = Inr (JArray found)"
      by blast
    with send mem show ?thesis by blast
  qed
  with dicts db' show ?thesis by blast
qed

lemma parse_critical:
  \<open>parse_response sample_loads ''[{"risk_level": "Critical"}]''
     = Inr [JObject [(''risk_level'', JString ''Critical'')]]\<close>
  by (simp add: parse_response_def strip_def isspace_def sample_loads_def)

theorem stored_findings_are_decoded_objects_witness:
  "upload_contract (sample_env high_chat) [] (Some ''contract.pdf'') ''%PDF-1.4''
    = (Inr \<lparr>id_str = ''6f1c2a3e-0000-4000-8000-000000000001'', filename = ''contract.pdf'',
            analysis_results = [JObject [(''risk_level'', JString ''High'')]],
            processed_at = ''2025-01-01T00:00:00+00:00''\<rparr>,
       [\<lparr>id_str = ''6f1c2a3e-0000-4000-8000-000000000001'', filename = ''contract.pdf'',
            analysis_results = [JObject [(''risk_level'', JString ''High'')]],
            processed_at = ''2025-01-01T00:00:00+00:00''\<rparr>])
   \<and> list_all is_dict [JObject [(''risk_level'', JString ''High'')]]
   \<and> (\<exists>j p response part items. send_message (sample_env high_chat) j p = Inr response
        \<and> (part = strip response \<or> re_search_array response = Some part)
        \<and> json_loads (sample_env high_chat) part = Inr (JArray items)
        \<and> JObject [(''risk_level'', JString ''High'')] \<in> set items)"
proof -
  let ?f = "JObject [(''risk_level'', JString ''High'')]"
  let ?r = "\<lparr>id_str = ''6f1c2a3e-0000-4000-8000-000000000001'', filename = ''contract.pdf'',
            analysis_results = [?f], processed_at = ''2025-01-01T00:00:00+00:00''\<rparr>"
  have run: "upload_contract (sample_env high_chat) [] (Some ''contract.pdf'') ''%PDF-1.4''
      = (Inr ?r, [?r])"
    using sample_upload [of high_chat _ "[?f]" "[]"] parse_high
    by (simp add: high_chat_def)
  from stored_findings_are_decoded_objects [OF run] run show ?thesis by simp
qed

theorem stored_finding_outside_spec:
  "upload_contract (sample_env critical_chat) [] (Some ''contract.pdf'') ''%PDF-1.4''
    = (Inr \<lparr>id_str = ''6f1c2a3e-0000-4000-8000-000000000001'', filename = ''contract.pdf'',
            analysis_results = [JObject [(''risk_level'', JString ''Critical'')]],
            processed_at = ''2025-01-01T00:00:00+00:00''\<rparr>,
       [\<lparr>id_str = ''6f1c2a3e-0000-4000-8000-000000000001'', filename = ''contract.pdf'',
            analysis_results = [JObject [(''risk_level'', JString ''Critical'')]],
            processed_at = ''2025-01-01T00:00:00+00:00''\<rparr>])
   \<and> \<not> spec_finding (JObject [(''risk_level'', JString ''Critical'')])"
proof -
  let ?f = "JObject [(''risk_level'', JString ''Critical'')]"
  have "upload_contract (sample_env critical_chat) [] (Some ''contract.pdf'') ''%PDF-1.4''
      = (Inr \<lparr>id_str = ''6f1c2a3e-0000-4000-8000-000000000001'', filename = ''contract.pdf'',
            analysis_results = [?f], processed_at = ''2025-01-01T00:00:00+00:00''\<rparr>,
       [] @ [\<lparr>id_str = ''6f1c2a3e-0000-4000-8000-000000000001'', filename = ''contract.pdf'',
            analysis_results = [?f], processed_at = ''2025-01-01T00:00:00+00:00''\<rparr>])"
    using parse_critical by (intro sample_upload) (simp_all add: critical_chat_def)
  moreover have "\<not> spec_finding ?f" by simp
  ultimately show ?thesis by simp
qed

subsection \<open>Reading a reply: the bracket search\<close>












subsection \<open>Reading a reply: decoding errors are absorbed\<close>








end
